theory Spec2Isabelle
  imports Main "HOL-Library.Multiset" "HOL-Library.Monad_Syntax"
begin

section \<open>Vehicle auctions: data model\<close>

text \<open>
  The theory embeds \<^verbatim>\<open>main.py\<close>. Python strings are modelled as HOL strings, so
  the characters considered are the code points below 256. Exceptions are values of the
  type \<open>error\<close>; a function that can raise returns \<open>error + 'a\<close>.
\<close>

datatype error =
    FileNotFoundError
  | OSError
  | ValueError
  | KeyError
  | TypeError
  | AttributeError
  | OverflowError
  | ValidationError
  | OtherError string

text \<open>Sequencing of two steps of which the first may raise.\<close>

definition ebind :: "error + 'a \<Rightarrow> ('a \<Rightarrow> error + 'b) \<Rightarrow> error + 'b" where
  "ebind r f = (case r of Inl e \<Rightarrow> Inl e | Inr x \<Rightarrow> f x)"

subsection \<open>Characters and strings of Python\<close>

text \<open>\<^verbatim>\<open>str.isspace\<close> on one character (code points below 256).\<close>

definition py_isspace :: "char \<Rightarrow> bool" where
  "py_isspace c =
     (let n = (of_char c :: nat)
      in (9 \<le> n \<and> n \<le> 13) \<or> (28 \<le> n \<and> n \<le> 32) \<or> n = 133 \<or> n = 160)"

text \<open>\<^verbatim>\<open>str.lower\<close> on one character (code points below 256).\<close>

definition py_lower_char :: "char \<Rightarrow> char" where
  "py_lower_char c =
     (let n = (of_char c :: nat)
      in if (65 \<le> n \<and> n \<le> 90) \<or> (192 \<le> n \<and> n \<le> 222 \<and> n \<noteq> 215)
         then char_of (n + 32) else c)"

definition py_lower :: "string \<Rightarrow> string" where
  "py_lower s = map py_lower_char s"

text \<open>\<^verbatim>\<open>str.strip()\<close>: whitespace is removed at both ends.\<close>

definition py_strip :: "string \<Rightarrow> string" where
  "py_strip s = rev (dropWhile py_isspace (rev (dropWhile py_isspace s)))"

subsection \<open>Transmission\<close>

datatype transmission = AUTOMATIC | MANUAL | UNKNOWN

fun transmission_value :: "transmission \<Rightarrow> string" where
  "transmission_value AUTOMATIC = ''Automatic''"
| "transmission_value MANUAL = ''Manual''"
| "transmission_value UNKNOWN = ''Unknown''"

text \<open>The members in the order of their definition, as iterating the enum gives them.\<close>

definition transmission_members :: "transmission list" where
  "transmission_members = [AUTOMATIC, MANUAL, UNKNOWN]"

text \<open>
  \<^verbatim>\<open>Transmission.from_str\<close>. The argument is a string or \<^verbatim>\<open>None\<close>; a falsy
  argument (\<^verbatim>\<open>None\<close> or the empty string) gives the empty \<^verbatim>\<open>clean_val\<close>. The loop
  returns the first member whose lowered value equals the lowered \<^verbatim>\<open>clean_val\<close>.
\<close>

fun from_str_loop :: "transmission list \<Rightarrow> string \<Rightarrow> transmission" where
  "from_str_loop [] clean_val = UNKNOWN"
| "from_str_loop (member # rest) clean_val =
     (if py_lower (transmission_value member) = py_lower clean_val then member
      else from_str_loop rest clean_val)"

definition from_str :: "string option \<Rightarrow> transmission" where
  "from_str v =
     (let clean_val = (case v of None \<Rightarrow> [] | Some s \<Rightarrow> if s = [] then [] else py_strip s)
      in if clean_val = [] then UNKNOWN
         else from_str_loop transmission_members clean_val)"

subsection \<open>Engine, Vehicle, Auction\<close>

record engine =
  description :: string
  cylinders :: "string option"

text \<open>The field \<^verbatim>\<open>make\<close> is \<open>make_name\<close>: a record has a constant \<open>make\<close> of its own.\<close>

record vehicle =
  year :: int
  make_name :: string
  model :: string
  vin :: string
  engine :: engine
  transmission :: transmission

text \<open>A point in time as \<^verbatim>\<open>datetime\<close> holds it; the seconds are always zero here.\<close>

record datetime =
  dt_year :: int
  dt_month :: int
  dt_day :: int
  dt_hour :: int
  dt_minute :: int

text \<open>
  The location of an auction is the field Branch Name of a row as \<^verbatim>\<open>csv.DictReader\<close>
  gives it: a string, or \<^verbatim>\<open>None\<close> when the line ends before that column. The class
  \<^verbatim>\<open>Auction\<close> is a plain dataclass and takes either.
\<close>

record auction =
  date_utc :: datetime
  location :: "string option"
  vehicles :: "vehicle list"

type_synonym triple = "datetime \<times> string option \<times> vehicle"

section \<open>Date parser\<close>

subsection \<open>Steps 1 and 2: the meridiem and the date pattern\<close>

text \<open>
  \<^verbatim>\<open>str.replace(old, new)\<close>, scanning from the left, occurrences not overlapping. It is
  used with a non-empty \<^verbatim>\<open>old\<close> only; an empty one leaves the string as it is here.
\<close>

function py_replace :: "string \<Rightarrow> string \<Rightarrow> string \<Rightarrow> string" where
  "py_replace old new [] = []"
| "py_replace old new (c # cs) =
     (if old \<noteq> [] \<and> take (length old) (c # cs) = old
      then new @ py_replace old new (drop (length old) (c # cs))
      else c # py_replace old new cs)"
  by pat_completeness auto
termination
  by (relation "measure (\<lambda>(old, new, s). length s)") (auto simp: neq_Nil_conv)

definition is_digit :: "char \<Rightarrow> bool" where
  "is_digit c = (c \<in> set ''0123456789'')"

definition is_letter :: "char \<Rightarrow> bool" where
  "is_letter c = (c \<in> set ''abcdefghijklmnopqrstuvwxyzABCDEFGHIJKLMNOPQRSTUVWXYZ'')"

definition is_char :: "char \<Rightarrow> char \<Rightarrow> bool" where
  "is_char a c = (c = a)"

definition one_of :: "string \<Rightarrow> char \<Rightarrow> bool" where
  "one_of s c = (c \<in> set s)"

text \<open>A string begins with one character of each class, in this order.\<close>

fun match_classes :: "(char \<Rightarrow> bool) list \<Rightarrow> string \<Rightarrow> bool" where
  "match_classes [] s = True"
| "match_classes (p # ps) [] = False"
| "match_classes (p # ps) (c # cs) = (p c \<and> match_classes ps cs)"

text \<open>
  The pattern \<^verbatim>\<open>[a-zA-Z]{3} [a-zA-Z]{3} \d{2}, \d{1,2}:\d{2}[APM]{2}\<close>, up to the hour and
  after it. The hour \<^verbatim>\<open>\d{1,2}\<close> is greedy: two digits are tried before one.
\<close>

definition date_pattern_head :: "(char \<Rightarrow> bool) list" where
  "date_pattern_head =
     [is_letter, is_letter, is_letter, is_char CHR '' '',
      is_letter, is_letter, is_letter, is_char CHR '' '',
      is_digit, is_digit, is_char CHR '','', is_char CHR '' '']"

definition date_pattern_tail :: "(char \<Rightarrow> bool) list" where
  "date_pattern_tail =
     [is_char CHR '':'', is_digit, is_digit, one_of ''APM'', one_of ''APM'']"

definition match_date_pattern :: "string \<Rightarrow> string option" where
  "match_date_pattern s =
     (if match_classes (date_pattern_head @ [is_digit, is_digit] @ date_pattern_tail) s
      then Some (take 19 s)
      else if match_classes (date_pattern_head @ [is_digit] @ date_pattern_tail) s
      then Some (take 18 s)
      else None)"

text \<open>\<^verbatim>\<open>re.search\<close>: the match at the leftmost position that has one.\<close>

fun re_search_date :: "string \<Rightarrow> string option" where
  "re_search_date [] = None"
| "re_search_date (c # cs) =
     (case match_date_pattern (c # cs) of
        Some m \<Rightarrow> Some m
      | None \<Rightarrow> re_search_date cs)"

definition clean_date_of :: "string \<Rightarrow> string" where
  "clean_date_of date_str =
     (let clean_date = py_replace ''pm'' ''PM'' (py_replace ''am'' ''AM'' date_str)
      in case re_search_date clean_date of Some m \<Rightarrow> m | None \<Rightarrow> clean_date)"

subsection \<open>Step 3: the year in front\<close>

fun digit_char :: "nat \<Rightarrow> char" where
  "digit_char n = ''0123456789'' ! (n mod 10)"

text \<open>The decimal digits of a natural number, as \<^verbatim>\<open>str\<close> prints them.\<close>

fun str_nat :: "nat \<Rightarrow> string" where
  "str_nat n = (if n < 10 then [digit_char n] else str_nat (n div 10) @ [digit_char n])"

declare str_nat.simps [simp del]

definition str_int :: "int \<Rightarrow> string" where
  "str_int i = (if i < 0 then CHR ''-'' # str_nat (nat (- i)) else str_nat (nat i))"

definition date_with_year :: "int \<Rightarrow> string \<Rightarrow> string" where
  "date_with_year current_year clean_date = str_int current_year @ '' '' @ clean_date"

subsection \<open>Step 4: strptime with the layout %Y %a %b %d, %I:%M%p\<close>

text \<open>
  \<^verbatim>\<open>strptime\<close> turns the layout into a regular expression, in the C locale
  \<^verbatim>\<open>(?P<Y>\d\d\d\d)\s+(?P<a>mon|tue|wed|thu|fri|sat|sun)\s+(?P<b>jan|...|dec)\s+\<close>
  \<^verbatim>\<open>(?P<d>3[0-1]|[1-2]\d|0[1-9]|[1-9]| [1-9]),\s+(?P<I>1[0-2]|0[1-9]|[1-9]):\<close>
  \<^verbatim>\<open>(?P<M>[0-5]\d|\d)(?P<p>am|pm)\<close>, and matches it at the start of the string, ignoring
  case. A piece of a regular expression maps a string to its matches, each the group it
  captured and the rest of the string, the match tried first at the head of the list; the
  pieces are put in sequence by the bind of lists, which is backtracking.
\<close>

type_synonym 'a rx = "string \<Rightarrow> ('a \<times> string) list"

definition rx_classes :: "(char \<Rightarrow> bool) list \<Rightarrow> string rx" where
  "rx_classes ps s =
     (if match_classes ps s then [(take (length ps) s, drop (length ps) s)] else [])"

definition rx_alt :: "'a rx list \<Rightarrow> 'a rx" where
  "rx_alt ms s = concat (map (\<lambda>m. m s) ms)"

text \<open>\<^verbatim>\<open>\s+\<close>, greedy: the longest run of whitespace first, then the shorter ones.\<close>

definition rx_spaces :: "unit rx" where
  "rx_spaces s =
     map (\<lambda>n. ((), drop n s)) (rev [1 ..< Suc (length (takeWhile py_isspace s))])"

text \<open>An alternation of lower-case words, ignoring case; the group is the word's index.\<close>

definition rx_words :: "string list \<Rightarrow> nat rx" where
  "rx_words ws s =
     concat (map (\<lambda>i. if py_lower (take (length (ws ! i)) s) = ws ! i
                         then [(i, drop (length (ws ! i)) s)] else [])
                 [0 ..< length ws])"

definition a_weekday :: "string list" where
  "a_weekday = [''mon'', ''tue'', ''wed'', ''thu'', ''fri'', ''sat'', ''sun'']"

definition a_month :: "string list" where
  "a_month = [''jan'', ''feb'', ''mar'', ''apr'', ''may'', ''jun'',
              ''jul'', ''aug'', ''sep'', ''oct'', ''nov'', ''dec'']"

definition am_pm :: "string list" where
  "am_pm = [''am'', ''pm'']"

definition rx_d :: "string rx" where
  "rx_d = rx_alt
     [rx_classes [is_char CHR ''3'', one_of ''01''],
      rx_classes [one_of ''12'', is_digit],
      rx_classes [is_char CHR ''0'', one_of ''123456789''],
      rx_classes [one_of ''123456789''],
      rx_classes [is_char CHR '' '', one_of ''123456789'']]"

definition rx_I :: "string rx" where
  "rx_I = rx_alt
     [rx_classes [is_char CHR ''1'', one_of ''012''],
      rx_classes [is_char CHR ''0'', one_of ''123456789''],
      rx_classes [one_of ''123456789'']]"

definition rx_M :: "string rx" where
  "rx_M = rx_alt
     [rx_classes [one_of ''012345'', is_digit],
      rx_classes [is_digit]]"

definition strptime_regex :: "(string \<times> nat \<times> nat \<times> string \<times> string \<times> string \<times> nat) rx" where
  "strptime_regex s = do {
     (Y, s1) \<leftarrow> rx_classes [is_digit, is_digit, is_digit, is_digit] s;
     (u1, s2) \<leftarrow> rx_spaces s1;
     (a, s3) \<leftarrow> rx_words a_weekday s2;
     (u2, s4) \<leftarrow> rx_spaces s3;
     (b, s5) \<leftarrow> rx_words a_month s4;
     (u3, s6) \<leftarrow> rx_spaces s5;
     (d, s7) \<leftarrow> rx_d s6;
     (u4, s8) \<leftarrow> rx_classes [is_char CHR '',''] s7;
     (u5, s9) \<leftarrow> rx_spaces s8;
     (I, s10) \<leftarrow> rx_I s9;
     (u6, s11) \<leftarrow> rx_classes [is_char CHR '':''] s10;
     (M, s12) \<leftarrow> rx_M s11;
     (p, s13) \<leftarrow> rx_words am_pm s12;
     [((Y, a, b, d, I, M, p), s13)]
   }"

text \<open>\<^verbatim>\<open>int\<close> of a group of digits; the day's group may begin with a blank.\<close>

definition digit_val :: "char \<Rightarrow> int" where
  "digit_val c = int (of_char c) - 48"

definition int_of_group :: "string \<Rightarrow> int" where
  "int_of_group g = foldl (\<lambda>acc c. 10 * acc + digit_val c) 0 (filter is_digit g)"

subsection \<open>The calendar of datetime\<close>

definition is_leap :: "int \<Rightarrow> bool" where
  "is_leap y = (y mod 4 = 0 \<and> (y mod 100 \<noteq> 0 \<or> y mod 400 = 0))"

definition DAYS_IN_MONTH :: "int list" where
  "DAYS_IN_MONTH = [-1, 31, 28, 31, 30, 31, 30, 31, 31, 30, 31, 30, 31]"

definition DAYS_BEFORE_MONTH :: "int list" where
  "DAYS_BEFORE_MONTH = [-1, 0, 31, 59, 90, 120, 151, 181, 212, 243, 273, 304, 334]"

definition days_in_month :: "int \<Rightarrow> int \<Rightarrow> int" where
  "days_in_month y m = (if m = 2 \<and> is_leap y then 29 else DAYS_IN_MONTH ! nat m)"

definition days_before_year :: "int \<Rightarrow> int" where
  "days_before_year y = (let y1 = y - 1 in y1 * 365 + y1 div 4 - y1 div 100 + y1 div 400)"

definition days_before_month :: "int \<Rightarrow> int \<Rightarrow> int" where
  "days_before_month y m = DAYS_BEFORE_MONTH ! nat m + (if m > 2 \<and> is_leap y then 1 else 0)"

definition ymd2ord :: "int \<Rightarrow> int \<Rightarrow> int \<Rightarrow> int" where
  "ymd2ord y m d = days_before_year y + days_before_month y m + d"

definition ord2ymd :: "int \<Rightarrow> int \<times> int \<times> int" where
  "ord2ymd n0 =
     (let n = n0 - 1;
          n400 = n div 146097; n = n mod 146097;
          y = n400 * 400 + 1;
          n100 = n div 36524; n = n mod 36524;
          n4 = n div 1461; n = n mod 1461;
          n1 = n div 365; n = n mod 365;
          y = y + n100 * 100 + n4 * 4 + n1
      in if n1 = 4 \<or> n100 = 4 then (y - 1, 12, 31)
         else
           let leapyear = (n1 = 3 \<and> (n4 \<noteq> 24 \<or> n100 = 3));
               m = (n + 50) div 32;
               preceding = DAYS_BEFORE_MONTH ! nat m + (if m > 2 \<and> leapyear then 1 else 0);
               m' = (if preceding > n then m - 1 else m);
               preceding' = (if preceding > n
                             then preceding - (DAYS_IN_MONTH ! nat m'
                                               + (if m' = 2 \<and> leapyear then 1 else 0))
                             else preceding)
           in (y, m', n - preceding' + 1))"

text \<open>Monday is 0 and Sunday is 6.\<close>

definition weekday :: "int \<Rightarrow> int \<Rightarrow> int \<Rightarrow> int" where
  "weekday y m d = (ymd2ord y m d + 6) mod 7"

text \<open>
  The groups become the fields of a naive \<^verbatim>\<open>datetime\<close>. The weekday is read and not
  used. \<^verbatim>\<open>strptime\<close> raises \<^verbatim>\<open>ValueError\<close> when the expression does not match, when
  the match stops before the end of the string, and when the day is not in the month.
\<close>

definition strptime :: "string \<Rightarrow> error + datetime" where
  "strptime data_string =
     (case strptime_regex data_string of
        [] \<Rightarrow> Inl ValueError
      | ((Y, a, b, d, I, M, p), rest) # others \<Rightarrow>
          if rest \<noteq> [] then Inl ValueError
          else
            let y = int_of_group Y;
                month = int b + 1;
                dd = int_of_group d;
                hour = int_of_group I;
                hour = (if p = 0 then (if hour = 12 then 0 else hour)
                        else (if hour \<noteq> 12 then hour + 12 else hour));
                mi = int_of_group M
            in if y < 1 \<or> dd > days_in_month y month then Inl ValueError
               else Inr \<lparr>dt_year = y, dt_month = month, dt_day = dd,
                         dt_hour = hour, dt_minute = mi\<rparr>)"

subsection \<open>Steps 5 and 6: US/Central and UTC\<close>

text \<open>The minutes from the start of day 0 of the proleptic calendar to a date and time.\<close>

definition to_minutes :: "datetime \<Rightarrow> int" where
  "to_minutes t =
     ((ymd2ord (dt_year t) (dt_month t) (dt_day t) * 24 + dt_hour t) * 60 + dt_minute t)"

definition from_minutes :: "int \<Rightarrow> datetime" where
  "from_minutes n =
     (case ord2ymd (n div 1440) of (y, m, d) \<Rightarrow>
        \<lparr>dt_year = y, dt_month = m, dt_day = d,
         dt_hour = (n mod 1440) div 60, dt_minute = n mod 60\<rparr>)"

text \<open>The day of the month of the \<open>k\<close>-th Sunday of a month, \<open>k\<close> from 1.\<close>

definition nth_sunday :: "int \<Rightarrow> int \<Rightarrow> int \<Rightarrow> int" where
  "nth_sunday y m k = 1 + (6 - weekday y m 1) mod 7 + 7 * (k - 1)"

text \<open>
  The zone US/Central as the time zone database has it for the years 2007 to 2037: daylight
  time from the second Sunday of March to the first Sunday of November, the clocks changing
  at 2 in the morning of the wall clock. \<^verbatim>\<open>localize\<close> with its default
  \<^verbatim>\<open>is_dst=False\<close> never raises: a wall-clock time that occurs twice (from 1:00 to 2:00
  on the day daylight time ends) is taken as standard time, and one that does not occur (from
  2:00 to 3:00 on the day it starts) as standard time too. The result is the offset from UTC,
  in minutes.
\<close>

definition central_is_dst :: "datetime \<Rightarrow> bool" where
  "central_is_dst t =
     (let y = dt_year t;
          dst_start = \<lparr>dt_year = y, dt_month = 3, dt_day = nth_sunday y 3 2,
                       dt_hour = 3, dt_minute = 0\<rparr>;
          dst_end = \<lparr>dt_year = y, dt_month = 11, dt_day = nth_sunday y 11 1,
                     dt_hour = 1, dt_minute = 0\<rparr>
      in to_minutes dst_start \<le> to_minutes t \<and> to_minutes t < to_minutes dst_end)"

definition localize :: "datetime \<Rightarrow> int" where
  "localize naive_date = (if central_is_dst naive_date then - 300 else - 360)"

text \<open>
  \<^verbatim>\<open>astimezone(pytz.UTC)\<close>: the offset is subtracted. The subtraction raises
  \<^verbatim>\<open>OverflowError\<close> when the day of the result is not a day of the years 1 to 9999
  (the ordinals 1 to 3652059).
\<close>

definition astimezone_utc :: "datetime \<Rightarrow> int \<Rightarrow> error + datetime" where
  "astimezone_utc t utcoffset =
     (let n = to_minutes t - utcoffset
      in if n div 1440 < 1 \<or> 3652059 < n div 1440 then Inl OverflowError
         else Inr (from_minutes n))"

text \<open>
  \<^verbatim>\<open>parse_auction_date\<close>. The year that \<^verbatim>\<open>datetime.now()\<close> gives is the argument
  \<open>current_year\<close>. The zone is modelled for the years 2007 to 2037, so what is proved
  of the result of \<^verbatim>\<open>parse_auction_date\<close> is proved for a current year in that range.
\<close>

definition parse_auction_date :: "int \<Rightarrow> string \<Rightarrow> error + datetime" where
  "parse_auction_date current_year date_str =
     (let clean_date = clean_date_of date_str
      in case strptime (date_with_year current_year clean_date) of
           Inl e \<Rightarrow> Inl e
         | Inr naive_date \<Rightarrow> astimezone_utc naive_date (localize naive_date))"

section \<open>Conversion to an integer\<close>

text \<open>
  \<^verbatim>\<open>int\<close> of a string: whitespace around, a sign, then decimal digits, where single
  underscores may stand between two digits. The whitespace that \<^verbatim>\<open>int\<close> removes is not
  that of \<^verbatim>\<open>str.strip\<close>: of the code points below 256 it is the tabulator to the carriage
  return, the blank, and the two above 127 that are whitespace (they are turned into blanks
  first); the separators 28 to 31 are not removed and make the conversion fail. A string
  with more than 4300 digits is refused (the default limit of the interpreter).
\<close>

definition int_isspace :: "char \<Rightarrow> bool" where
  "int_isspace c =
     (let n = (of_char c :: nat)
      in (9 \<le> n \<and> n \<le> 13) \<or> n = 32 \<or> n = 133 \<or> n = 160)"

definition int_strip :: "string \<Rightarrow> string" where
  "int_strip s = rev (dropWhile int_isspace (rev (dropWhile int_isspace s)))"

fun int_body_ok :: "string \<Rightarrow> bool" where
  "int_body_ok [] = False"
| "int_body_ok [c] = is_digit c"
| "int_body_ok (c # d # cs) =
     (is_digit c \<and> (if d = CHR ''_'' then int_body_ok cs else int_body_ok (d # cs)))"

definition py_int :: "string \<Rightarrow> error + int" where
  "py_int s =
     (let t = int_strip s;
          neg = (t \<noteq> [] \<and> hd t = CHR ''-'');
          body = (if t \<noteq> [] \<and> (hd t = CHR ''-'' \<or> hd t = CHR ''+'') then tl t else t)
      in if int_body_ok body \<and> length (filter is_digit body) \<le> 4300
         then Inr (if neg then - int_of_group body else int_of_group body)
         else Inl ValueError)"

section \<open>Validated construction\<close>

text \<open>
  \<^verbatim>\<open>Engine\<close> and \<^verbatim>\<open>Vehicle\<close> are declared as pydantic dataclasses; the constructors
  are generated by that library. They are modelled on the arguments that
  \<^verbatim>\<open>process_file\<close> passes, and no further: the year is an integer already, the engine an
  \<^verbatim>\<open>Engine\<close>, the transmission a member of the enumeration, and each other argument is a
  string or \<^verbatim>\<open>None\<close>. A value of the declared type of its field is stored as it is;
  \<^verbatim>\<open>None\<close> is refused with a validation error by a field declared \<^verbatim>\<open>str\<close> and stored
  by the field \<^verbatim>\<open>cylinders\<close>, declared \<^verbatim>\<open>Optional[str]\<close>.
\<close>

definition Engine :: "string option \<Rightarrow> string option \<Rightarrow> error + engine" where
  "Engine description_arg cylinders_arg =
     (case description_arg of
        None \<Rightarrow> Inl ValidationError
      | Some d \<Rightarrow> Inr \<lparr>description = d, cylinders = cylinders_arg\<rparr>)"

definition Vehicle ::
  "int \<Rightarrow> string option \<Rightarrow> string option \<Rightarrow> string option \<Rightarrow> engine \<Rightarrow> transmission
     \<Rightarrow> error + vehicle" where
  "Vehicle year_arg make_arg model_arg vin_arg engine_arg transmission_arg =
     (case make_arg of
        None \<Rightarrow> Inl ValidationError
      | Some mk \<Rightarrow>
     (case model_arg of
        None \<Rightarrow> Inl ValidationError
      | Some md \<Rightarrow>
     (case vin_arg of
        None \<Rightarrow> Inl ValidationError
      | Some vn \<Rightarrow>
          Inr \<lparr>year = year_arg, make_name = mk, model = md, vin = vn, engine = engine_arg,
               transmission = transmission_arg\<rparr>)))"

section \<open>File processor\<close>

text \<open>
  A row of \<^verbatim>\<open>csv.DictReader\<close> maps every column of the header to the field of the line
  in that column, or to \<^verbatim>\<open>None\<close> when the line ends before the column.
  \<^verbatim>\<open>row[k]\<close> raises \<^verbatim>\<open>KeyError\<close> for a column that the header does not have;
  \<^verbatim>\<open>row.get(k, default)\<close> gives the default then, and only then.
\<close>

type_synonym row = "string \<rightharpoonup> string option"

definition row_item :: "row \<Rightarrow> string \<Rightarrow> error + string option" where
  "row_item row k = (case row k of None \<Rightarrow> Inl KeyError | Some v \<Rightarrow> Inr v)"

definition row_get :: "row \<Rightarrow> string \<Rightarrow> string option \<Rightarrow> string option" where
  "row_get row k dflt = (case row k of None \<Rightarrow> dflt | Some v \<Rightarrow> v)"

text \<open>
  The triple of one row; the expressions are evaluated in the order in which they are
  written in the source. \<^verbatim>\<open>parse_auction_date(None)\<close> raises \<^verbatim>\<open>AttributeError\<close> at
  \<^verbatim>\<open>date_str.replace\<close>, and \<^verbatim>\<open>int(None)\<close> raises \<^verbatim>\<open>TypeError\<close>.
\<close>

definition process_row :: "int \<Rightarrow> row \<Rightarrow> error + triple" where
  "process_row current_year row =
     ebind (row_item row ''Auction Date'') (\<lambda>date_arg.
     ebind (case date_arg of
              None \<Rightarrow> Inl AttributeError
            | Some date_str \<Rightarrow> parse_auction_date current_year date_str) (\<lambda>date_utc.
     ebind (row_item row ''Branch Name'') (\<lambda>loc.
     ebind (row_item row ''Year'') (\<lambda>year_arg.
     ebind (case year_arg of None \<Rightarrow> Inl TypeError | Some year_str \<Rightarrow> py_int year_str) (\<lambda>y.
     ebind (row_item row ''Make'') (\<lambda>mk.
     ebind (row_item row ''Model'') (\<lambda>md.
     ebind (row_item row ''Vin#'') (\<lambda>vn.
     ebind (row_item row ''Engine'') (\<lambda>en.
     ebind (Engine en (row_get row ''Cylinders'' (Some ''N/A''))) (\<lambda>eng.
     ebind (Vehicle y mk md vn eng (from_str (row_get row ''Transmission Type'' (Some []))))
       (\<lambda>v.
     Inr (date_utc, loc, v))))))))))))"

text \<open>
  What opening and reading a file gives: the file cannot be opened, or the reader yields
  rows and then ends, normally or with an error (a line that is not CSV, bytes that are
  not UTF-8).
\<close>

datatype csv_file = OpenFails error | Reads "row list" "error option"

text \<open>The list comprehension: the rows in order, the first exception ends it.\<close>

fun process_rows :: "int \<Rightarrow> row list \<Rightarrow> error option \<Rightarrow> error + triple list" where
  "process_rows current_year [] None = Inr []"
| "process_rows current_year [] (Some e) = Inl e"
| "process_rows current_year (row # rows) ending =
     ebind (process_row current_year row) (\<lambda>t.
     ebind (process_rows current_year rows ending) (\<lambda>ts.
     Inr (t # ts)))"

definition process_file :: "int \<Rightarrow> csv_file \<Rightarrow> error + triple list" where
  "process_file current_year f =
     (case f of
        OpenFails e \<Rightarrow> Inl e
      | Reads rows ending \<Rightarrow> process_rows current_year rows ending)"

section \<open>The merge step of run_pipeline\<close>

text \<open>
  The dictionary \<^verbatim>\<open>auctions\<close> keeps its keys in insertion order, so it is an association
  list. A new key is added at the end with an empty vehicle list; then the vehicle is appended
  to the list of the key's auction.
\<close>

type_synonym auctions = "((datetime \<times> string option) \<times> auction) list"

fun append_vehicle :: "(datetime \<times> string option) \<Rightarrow> vehicle \<Rightarrow> auctions \<Rightarrow> auctions" where
  "append_vehicle key v [] = []"
| "append_vehicle key v ((k, a) # rest) =
     (if k = key then (k, a\<lparr>vehicles := vehicles a @ [v]\<rparr>) # rest
      else (k, a) # append_vehicle key v rest)"

definition merge_triple :: "auctions \<Rightarrow> triple \<Rightarrow> auctions" where
  "merge_triple aucs t =
     (case t of (d, loc, v) \<Rightarrow>
        let key = (d, loc);
            aucs' = (if key \<notin> fst ` set aucs
                     then aucs @ [(key, \<lparr>date_utc = d, location = loc, vehicles = []\<rparr>)]
                     else aucs)
        in append_vehicle key v aucs')"

definition merge_file :: "auctions \<Rightarrow> triple list \<Rightarrow> auctions" where
  "merge_file aucs file_result = foldl merge_triple aucs file_result"

text \<open>The dictionary after the loops, and the list of its values that is returned.\<close>

definition merge_dict :: "triple list list \<Rightarrow> auctions" where
  "merge_dict results = foldl merge_file [] results"

definition merge_results :: "triple list list \<Rightarrow> auction list" where
  "merge_results results = map snd (merge_dict results)"

text \<open>The grouping key of a triple and of an auction, and the vehicles of a key.\<close>

definition triple_key :: "triple \<Rightarrow> datetime \<times> string option" where
  "triple_key t = (fst t, fst (snd t))"

definition auction_key :: "auction \<Rightarrow> datetime \<times> string option" where
  "auction_key a = (date_utc a, location a)"

definition vehicles_of_key :: "(datetime \<times> string option) \<Rightarrow> triple list \<Rightarrow> vehicle list" where
  "vehicles_of_key k ts = map (\<lambda>t. snd (snd t)) (filter (\<lambda>t. triple_key t = k) ts)"

text \<open>
  What holds of the dictionary after the triples \<open>ts\<close> have been merged into it: the keys
  are those of the triples, each once, and the auction of a key has the key's fields and the
  vehicles of the key's triples, in their order.
\<close>

definition merge_inv :: "auctions \<Rightarrow> triple list \<Rightarrow> bool" where
  "merge_inv aucs ts \<longleftrightarrow>
     distinct (map fst aucs) \<and>
     fst ` set aucs = triple_key ` set ts \<and>
     (\<forall>(k, a) \<in> set aucs. auction_key a = k \<and> vehicles a = vehicles_of_key k ts)"

text \<open>The vehicles of an auction, each with the date and the location of the auction.\<close>

definition auction_triples :: "auction \<Rightarrow> triple list" where
  "auction_triples a = map (\<lambda>v. (date_utc a, location a, v)) (vehicles a)"

section \<open>run_pipeline\<close>

text \<open>
  What is at a path: a directory with its entries (a name and what reading that entry
  gives), or something that is not a directory.
\<close>

datatype node = Directory "(string \<times> csv_file) list" | NotDirectory

text \<open>
  The file system maps a path to what \<^verbatim>\<open>path.exists()\<close> finds. The test returns true
  (something is present), or it returns false (nothing is at the path), or it raises the
  error of the system call: a name longer than the file system allows, for one, is a path at
  which nothing exists and for which the test raises \<^verbatim>\<open>OSError\<close>.
\<close>

datatype path_status = Present node | Absent | StatError error

type_synonym filesystem = "string \<Rightarrow> path_status"

text \<open>Something exists at the path.\<close>

definition path_exists :: "filesystem \<Rightarrow> string \<Rightarrow> bool" where
  "path_exists fs p = (case fs p of Present n \<Rightarrow> True | Absent \<Rightarrow> False | StatError e \<Rightarrow> False)"

definition ends_with :: "string \<Rightarrow> string \<Rightarrow> bool" where
  "ends_with suffix s = (length suffix \<le> length s \<and> drop (length s - length suffix) s = suffix)"

text \<open>\<^verbatim>\<open>path.glob("*.csv")\<close>: the entries of the directory whose name ends in .csv.\<close>

definition glob_csv :: "node \<Rightarrow> csv_file list" where
  "glob_csv n =
     (case n of
        Directory entries \<Rightarrow> map snd (filter (\<lambda>(name, f). ends_with ''.csv'' name) entries)
      | NotDirectory \<Rightarrow> [])"

text \<open>
  The tasks run in a pool of threads, and \<^verbatim>\<open>asyncio.gather\<close> raises the exception of
  the task that fails first. The order in which the tasks finish is not determined by the
  program: it is the argument \<open>order\<close>, a list of indices of tasks; a task that the list
  does not name finishes after those it names. When no task fails the results are in the
  order of the tasks.
\<close>

definition completion :: "nat list \<Rightarrow> 'a list \<Rightarrow> 'a list" where
  "completion order tasks =
     map (\<lambda>i. tasks ! i) (filter (\<lambda>i. i < length tasks) (order @ [0 ..< length tasks]))"

fun first_error :: "(error + 'a) list \<Rightarrow> error option" where
  "first_error [] = None"
| "first_error (Inl e # rs) = Some e"
| "first_error (Inr x # rs) = first_error rs"

fun results_of :: "(error + 'a) list \<Rightarrow> 'a list" where
  "results_of [] = []"
| "results_of (Inl e # rs) = results_of rs"
| "results_of (Inr x # rs) = x # results_of rs"

definition gather :: "nat list \<Rightarrow> (error + 'a) list \<Rightarrow> error + 'a list" where
  "gather order tasks =
     (case first_error (completion order tasks) of
        Some e \<Rightarrow> Inl e
      | None \<Rightarrow> Inr (results_of tasks))"

definition run_pipeline ::
  "int \<Rightarrow> filesystem \<Rightarrow> nat list \<Rightarrow> string \<Rightarrow> error + auction list" where
  "run_pipeline current_year fs order directory_name =
     (case fs directory_name of
        StatError e \<Rightarrow> Inl e
      | Absent \<Rightarrow> Inl FileNotFoundError
      | Present path \<Rightarrow>
          let files = glob_csv path;
              tasks = map (process_file current_year) files
          in ebind (gather order tasks) (\<lambda>results. Inr (merge_results results)))"

section \<open>Failures of a row and of a file\<close>

text \<open>
  The failures of the error taxonomy, stated on the input. A row fails when a column that is
  read with \<^verbatim>\<open>row[...]\<close> is missing from the header, when its date is \<^verbatim>\<open>None\<close> or does
  not parse, when its year is \<^verbatim>\<open>None\<close> or does not convert to an integer, or when a field
  that the vehicle or its engine needs as a string is \<^verbatim>\<open>None\<close>. A file fails when it
  cannot be opened, when reading it ends with an error, or when one of its rows fails.
\<close>

definition required_columns :: "string list" where
  "required_columns =
     [''Auction Date'', ''Branch Name'', ''Year'', ''Make'', ''Model'', ''Vin#'', ''Engine'']"

definition string_columns :: "string list" where
  "string_columns = [''Make'', ''Model'', ''Vin#'', ''Engine'']"

definition row_fails :: "int \<Rightarrow> row \<Rightarrow> bool" where
  "row_fails current_year row =
     ((\<exists>k \<in> set required_columns. row k = None) \<or>
      (case row ''Auction Date'' of
         None \<Rightarrow> False
       | Some None \<Rightarrow> True
       | Some (Some s) \<Rightarrow> isl (parse_auction_date current_year s)) \<or>
      (case row ''Year'' of
         None \<Rightarrow> False
       | Some None \<Rightarrow> True
       | Some (Some s) \<Rightarrow> isl (py_int s)) \<or>
      (\<exists>k \<in> set string_columns. row k = Some None))"

definition file_fails :: "int \<Rightarrow> csv_file \<Rightarrow> bool" where
  "file_fails current_year f =
     (case f of
        OpenFails e \<Rightarrow> True
      | Reads rows ending \<Rightarrow> (\<exists>r \<in> set rows. row_fails current_year r) \<or> ending \<noteq> None)"

section \<open>The layout of a date string\<close>







section \<open>Dates and times that exist\<close>



section \<open>An example run\<close>

text \<open>Three rows of two files: two vehicles at one auction, a third at another.\<close>

definition example_date :: datetime where
  "example_date = \<lparr>dt_year = 2026, dt_month = 12, dt_day = 1, dt_hour = 14, dt_minute = 30\<rparr>"

definition example_vehicle :: "string \<Rightarrow> vehicle" where
  "example_vehicle v =
     \<lparr>year = 2020, make_name = ''Audi'', model = ''A4'', vin = v,
      engine = \<lparr>description = ''V6'', cylinders = Some ''6''\<rparr>, transmission = AUTOMATIC\<rparr>"

definition example_results :: "triple list list" where
  "example_results =
     [[(example_date, Some ''Dallas'', example_vehicle ''VIN1''),
       (example_date, Some ''Dallas'', example_vehicle ''VIN2'')],
      [(example_date, Some ''Austin'', example_vehicle ''VIN3'')]]"

text \<open>A row with all the columns but Cylinders and Transmission Type.\<close>

definition example_row :: "string \<Rightarrow> string \<Rightarrow> row" where
  "example_row branch v =
     [''Auction Date'' \<mapsto> Some ''Mon Dec 01, 8:30am CST'', ''Branch Name'' \<mapsto> Some branch,
      ''Year'' \<mapsto> Some ''2020'', ''Make'' \<mapsto> Some ''Audi'', ''Model'' \<mapsto> Some ''A4'',
      ''Vin#'' \<mapsto> Some v, ''Engine'' \<mapsto> Some ''V6'']"

text \<open>
  A row of a file whose header has all nine columns and whose line ends after the engine:
  the last two fields are \<^verbatim>\<open>None\<close>.
\<close>

definition example_short_row :: row where
  "example_short_row =
     (example_row ''Dallas'' ''VIN4'')(''Cylinders'' \<mapsto> None, ''Transmission Type'' \<mapsto> None)"

text \<open>
  A file system with a directory of two good files, a directory in which a row has a year
  that is not a number, and names too long for the system call.
\<close>

definition example_fs :: filesystem where
  "example_fs p =
     (if p = ''csv_files'' then Present (Directory
        [(''a.csv'', Reads [example_row ''Dallas'' ''VIN1'', example_row ''Dallas'' ''VIN2''] None),
         (''notes.txt'', OpenFails FileNotFoundError),
         (''b.csv'', Reads [example_row ''Austin'' ''VIN3''] None)])
      else if p = ''broken'' then Present (Directory
        [(''a.csv'', Reads [example_row ''Dallas'' ''VIN1'',
                            (example_row ''Dallas'' ''VIN2'')(''Year'' \<mapsto> Some ''STARY'')] None),
         (''b.csv'', Reads [example_row ''Austin'' ''VIN3''] None)])
      else if length p > 255 then StatError OSError
      else Absent)"

section \<open>Properties of the merge step\<close>

lemma append_vehicle_keys: "map fst (append_vehicle key v aucs) = map fst aucs"
  by (induction aucs) auto

lemma append_vehicle_mem:
  "(k, a) \<in> set (append_vehicle key v aucs) \<Longrightarrow> distinct (map fst aucs) \<Longrightarrow>
   \<exists>a0. (k, a0) \<in> set aucs \<and> a = (if k = key then a0\<lparr>vehicles := vehicles a0 @ [v]\<rparr> else a0)"
proof (induction aucs)
  case Nil then show ?case by simp
next
  case (Cons p aucs)
  obtain k0 b where p: "p = (k0, b)" by (cases p)
  show ?case
  proof (cases "k0 = key")
    case True
    with Cons.prems p show ?thesis by (auto simp: image_iff)
  next
    case False
    with Cons.prems p have "(k, a) = (k0, b) \<or> (k, a) \<in> set (append_vehicle key v aucs)" by auto
    then show ?thesis
    proof
      assume "(k, a) = (k0, b)"
      with False p show ?thesis by auto
    next
      assume "(k, a) \<in> set (append_vehicle key v aucs)"
      moreover from Cons.prems have "distinct (map fst aucs)" by simp
      ultimately obtain a0 where "(k, a0) \<in> set aucs"
        "a = (if k = key then a0\<lparr>vehicles := vehicles a0 @ [v]\<rparr> else a0)"
        using Cons.IH by blast
      then show ?thesis by (intro exI[of _ a0]) simp
    qed
  qed
qed

lemma merge_foldl_concat:
  "foldl merge_file aucs results = foldl merge_triple aucs (concat results)"
  by (induction results arbitrary: aucs) (auto simp: merge_file_def)

lemma vehicles_of_key_snoc:
  "vehicles_of_key k (ts @ [(d, loc, v)]) =
     (if k = (d, loc) then vehicles_of_key k ts @ [v] else vehicles_of_key k ts)"
  by (auto simp: vehicles_of_key_def triple_key_def)

lemma vehicles_of_key_fresh: "k \<notin> triple_key ` set ts \<Longrightarrow> vehicles_of_key k ts = []"
  by (auto simp: vehicles_of_key_def filter_empty_conv)

lemma merge_triple_inv:
  assumes "merge_inv aucs ts"
  shows "merge_inv (merge_triple aucs t) (ts @ [t])"
proof -
  obtain d loc v where t: "t = (d, loc, v)" by (cases t) auto
  define key where "key = (d, loc)"
  define aucs' where "aucs' = (if key \<notin> fst ` set aucs
                     then aucs @ [(key, \<lparr>date_utc = d, location = loc, vehicles = []\<rparr>)]
                     else aucs)"
  have mt: "merge_triple aucs t = append_vehicle key v aucs'"
    by (simp add: merge_triple_def t key_def aucs'_def Let_def)
  have d': "distinct (map fst aucs')" using assms by (auto simp: aucs'_def merge_inv_def)
  have k': "fst ` set aucs' = insert key (triple_key ` set ts)"
    using assms by (auto simp: aucs'_def merge_inv_def)
  have v': "\<forall>(k, a) \<in> set aucs'. auction_key a = k \<and> vehicles a = vehicles_of_key k ts"
    using assms by (auto simp: aucs'_def merge_inv_def auction_key_def key_def vehicles_of_key_fresh)
  have "distinct (map fst (append_vehicle key v aucs'))" using d' by (simp add: append_vehicle_keys)
  moreover have "fst ` set (append_vehicle key v aucs') = triple_key ` set (ts @ [t])"
  proof -
    have "fst ` set (append_vehicle key v aucs') = set (map fst (append_vehicle key v aucs'))" by simp
    also have "\<dots> = fst ` set aucs'" by (simp add: append_vehicle_keys)
    finally show ?thesis using k' by (auto simp: t key_def triple_key_def)
  qed
  moreover have "\<forall>(k, a) \<in> set (append_vehicle key v aucs').
       auction_key a = k \<and> vehicles a = vehicles_of_key k (ts @ [t])"
  proof (clarify)
    fix k1 k2 a assume "((k1, k2), a) \<in> set (append_vehicle key v aucs')"
    from append_vehicle_mem[OF this d'] obtain a0 where
      a0: "((k1, k2), a0) \<in> set aucs'"
      and a: "a = (if (k1, k2) = key then a0\<lparr>vehicles := vehicles a0 @ [v]\<rparr> else a0)" by blast
    from v' a0 have "auction_key a0 = (k1, k2)" "vehicles a0 = vehicles_of_key (k1, k2) ts" by auto
    then show "auction_key a = (k1, k2) \<and> vehicles a = vehicles_of_key (k1, k2) (ts @ [t])"
      by (simp add: a t vehicles_of_key_snoc key_def auction_key_def)
  qed
  ultimately show ?thesis by (simp add: mt merge_inv_def)
qed

lemma foldl_merge_triple_inv:
  "merge_inv aucs ts \<Longrightarrow> merge_inv (foldl merge_triple aucs us) (ts @ us)"
proof (induction us arbitrary: aucs ts)
  case Nil then show ?case by simp
next
  case (Cons u us)
  from merge_triple_inv[OF Cons.prems] have "merge_inv (merge_triple aucs u) (ts @ [u])" .
  from Cons.IH[OF this] show ?case by simp
qed

lemma merge_inv_final: "merge_inv (merge_dict results) (concat results)"
  using foldl_merge_triple_inv[of "[]" "[]" "concat results"]
  by (simp add: merge_foldl_concat merge_inv_def merge_dict_def)


lemma filter_distinct_key:
  "distinct (map f xs) \<Longrightarrow> k \<in> f ` set xs \<Longrightarrow> \<exists>a. filter (\<lambda>x. f x = k) xs = [a] \<and> a \<in> set xs"
proof (induction xs)
  case Nil then show ?case by simp
next
  case (Cons x xs)
  show ?case
  proof (cases "f x = k")
    case True
    with Cons.prems have "k \<notin> f ` set xs" by auto
    then have "filter (\<lambda>x. f x = k) xs = []" by (auto simp: filter_empty_conv)
    with True show ?thesis by simp
  next
    case False
    with Cons show ?thesis by auto
  qed
qed

lemma merge_results_keys: "map auction_key (merge_results results) = map fst (merge_dict results)"
proof -
  have "\<forall>(k, a) \<in> set (merge_dict results). auction_key a = k"
    using merge_inv_final[of results] by (auto simp: merge_inv_def)
  then show ?thesis by (auto simp: merge_results_def)
qed

lemma merge_results_vehicles:
  assumes "a \<in> set (merge_results results)"
  shows "vehicles a = vehicles_of_key (auction_key a) (concat results)"
    and "auction_key a \<in> triple_key ` set (concat results)"
proof -
  from assms obtain k where ka: "(k, a) \<in> set (merge_dict results)"
    by (auto simp: merge_results_def)
  with merge_inv_final[of results]
  have "auction_key a = k" "vehicles a = vehicles_of_key k (concat results)"
    "k \<in> triple_key ` set (concat results)"
    by (force simp: merge_inv_def)+
  then show "vehicles a = vehicles_of_key (auction_key a) (concat results)"
    and "auction_key a \<in> triple_key ` set (concat results)" by simp_all
qed

text \<open>
  C1. The merge step of \<^verbatim>\<open>run_pipeline\<close> groups by key: for every key \<open>(utc_date, location)\<close>
  that occurs among the triples of the files, the returned list has exactly one auction with
  that key, and its vehicles are the vehicles of all the triples with that key, in the order
  of the files and, within a file, of the rows. No two returned auctions have the same key,
  so triples with distinct keys are in distinct auctions.
\<close>

theorem merge_one_auction_per_key:
  assumes "k \<in> triple_key ` set (concat results)"
  shows "(\<exists>a. filter (\<lambda>a. auction_key a = k) (merge_results results) = [a] \<and>
              vehicles a = vehicles_of_key k (concat results)) \<and>
         distinct (map auction_key (merge_results results))"
proof -
  have inv: "merge_inv (merge_dict results) (concat results)" by (rule merge_inv_final)
  have d: "distinct (map auction_key (merge_results results))"
    using inv by (simp add: merge_results_keys merge_inv_def)
  have "k \<in> auction_key ` set (merge_results results)"
  proof -
    have "auction_key ` set (merge_results results) = set (map auction_key (merge_results results))"
      by simp
    also have "\<dots> = fst ` set (merge_dict results)" by (simp add: merge_results_keys)
    finally show ?thesis using inv assms by (simp add: merge_inv_def)
  qed
  from filter_distinct_key[OF d this] obtain a where
    a: "filter (\<lambda>a. auction_key a = k) (merge_results results) = [a]" "a \<in> set (merge_results results)"
    by blast
  from a(1) have "a \<in> set (filter (\<lambda>a. auction_key a = k) (merge_results results))" by simp
  then have "auction_key a = k" by simp
  with merge_results_vehicles(1)[OF a(2)] a(1) d show ?thesis by auto
qed


theorem merge_one_auction_per_key_witness:
  "(example_date, Some ''Dallas'') \<in> triple_key ` set (concat example_results) \<and>
   (\<exists>a. filter (\<lambda>a. auction_key a = (example_date, Some ''Dallas'')) (merge_results example_results) = [a] \<and>
        vehicles a = [example_vehicle ''VIN1'', example_vehicle ''VIN2'']) \<and>
   distinct (map auction_key (merge_results example_results))"
proof -
  have h: "(example_date, Some ''Dallas'') \<in> triple_key ` set (concat example_results)"
    by (simp add: example_results_def triple_key_def)
  have v: "vehicles_of_key (example_date, Some ''Dallas'') (concat example_results) =
           [example_vehicle ''VIN1'', example_vehicle ''VIN2'']"
    by (simp add: example_results_def vehicles_of_key_def triple_key_def)
  from merge_one_auction_per_key[OF h] h show ?thesis by (simp only: v)
qed

lemma append_vehicle_mset:
  "key \<in> fst ` set aucs \<Longrightarrow> \<forall>(k, a) \<in> set aucs. auction_key a = k \<Longrightarrow>
   mset (concat (map (\<lambda>p. auction_triples (snd p)) (append_vehicle key v aucs))) =
   mset (concat (map (\<lambda>p. auction_triples (snd p)) aucs)) + {#(fst key, snd key, v)#}"
proof (induction aucs)
  case Nil then show ?case by simp
next
  case (Cons p aucs)
  obtain k0 b where p: "p = (k0, b)" by (cases p)
  show ?case
  proof (cases "k0 = key")
    case True
    with Cons.prems p have "auction_key b = key" by auto
    then have "date_utc b = fst key" "location b = snd key" by (auto simp: auction_key_def)
    with True p show ?thesis by (simp add: auction_triples_def)
  next
    case False
    with Cons.prems p have "key \<in> fst ` set aucs" "\<forall>(k, a) \<in> set aucs. auction_key a = k" by auto
    from Cons.IH[OF this] False p show ?thesis by simp
  qed
qed

lemma merge_triple_mset:
  assumes "\<forall>(k, a) \<in> set aucs. auction_key a = k"
  shows "mset (concat (map (\<lambda>p. auction_triples (snd p)) (merge_triple aucs t))) =
         mset (concat (map (\<lambda>p. auction_triples (snd p)) aucs)) + {#t#}"
proof -
  obtain d loc v where t: "t = (d, loc, v)" by (cases t) auto
  define aucs' where "aucs' = (if (d, loc) \<notin> fst ` set aucs
                     then aucs @ [((d, loc), \<lparr>date_utc = d, location = loc, vehicles = []\<rparr>)]
                     else aucs)"
  have mt: "merge_triple aucs (d, loc, v) = append_vehicle (d, loc) v aucs'"
    by (simp add: merge_triple_def aucs'_def Let_def)
  have k: "(d, loc) \<in> fst ` set aucs'" by (auto simp: aucs'_def)
  have c: "\<forall>(k, a) \<in> set aucs'. auction_key a = k"
    using assms by (auto simp: aucs'_def auction_key_def)
  have "mset (concat (map (\<lambda>p. auction_triples (snd p)) aucs')) =
        mset (concat (map (\<lambda>p. auction_triples (snd p)) aucs))"
    by (simp add: aucs'_def auction_triples_def)
  with append_vehicle_mset[OF k c, of v] show ?thesis by (simp add: mt t)
qed

lemma foldl_merge_triple_mset:
  "merge_inv aucs ts \<Longrightarrow>
   mset (concat (map (\<lambda>p. auction_triples (snd p)) (foldl merge_triple aucs us))) =
   mset (concat (map (\<lambda>p. auction_triples (snd p)) aucs)) + mset us"
proof (induction us arbitrary: aucs ts)
  case Nil then show ?case by simp
next
  case (Cons u us)
  have c: "\<forall>(k, a) \<in> set aucs. auction_key a = k" using Cons.prems by (auto simp: merge_inv_def)
  from Cons.IH[OF merge_triple_inv[OF Cons.prems, of u]] merge_triple_mset[OF c, of u]
  show ?case by simp
qed

lemma merge_results_mset:
  "mset (concat (map auction_triples (merge_results results))) = mset (concat results)"
proof -
  have "merge_inv [] []" by (simp add: merge_inv_def)
  from foldl_merge_triple_mset[OF this, of "concat results"]
  show ?thesis by (simp add: merge_results_def merge_dict_def merge_foldl_concat comp_def)
qed

lemma length_concat_auction_triples:
  "length (concat (map auction_triples as)) = (\<Sum>a\<leftarrow>as. length (vehicles a))"
  by (induction as) (auto simp: auction_triples_def)

text \<open>
  C10. Conservation and key consistency of the merge step. The vehicles of the returned
  auctions, each taken with the date and location of its auction, are as a multiset exactly
  the input triples: every triple is in one auction, the one of its key, and nothing else is
  in any auction. So the numbers of vehicles add up to the number of triples. The fields of
  every auction equal the key under which the dictionary holds it, and no returned auction is
  without a vehicle.
\<close>

theorem merge_conservation:
  "mset (concat (map auction_triples (merge_results results))) = mset (concat results) \<and>
   (\<Sum>a\<leftarrow>merge_results results. length (vehicles a)) = length (concat results) \<and>
   (\<forall>(k, a) \<in> set (merge_dict results). auction_key a = k) \<and>
   (\<forall>a \<in> set (merge_results results). vehicles a \<noteq> [])"
proof -
  have m: "mset (concat (map auction_triples (merge_results results))) = mset (concat results)"
    by (rule merge_results_mset)
  have "size (mset (concat (map auction_triples (merge_results results)))) = size (mset (concat results))"
    by (simp only: m)
  then have l: "(\<Sum>a\<leftarrow>merge_results results. length (vehicles a)) = length (concat results)"
    by (simp only: size_mset length_concat_auction_triples)
  have k: "\<forall>(k, a) \<in> set (merge_dict results). auction_key a = k"
    using merge_inv_final[of results] by (auto simp: merge_inv_def)
  have n: "\<forall>a \<in> set (merge_results results). vehicles a \<noteq> []"
  proof
    fix a assume a: "a \<in> set (merge_results results)"
    from merge_results_vehicles(2)[OF a] obtain t where
      t: "t \<in> set (concat results)" "triple_key t = auction_key a" by force
    then have "filter (\<lambda>t. triple_key t = auction_key a) (concat results) \<noteq> []"
      by (simp only: filter_empty_conv) blast
    then show "vehicles a \<noteq> []"
      by (simp add: merge_results_vehicles(1)[OF a] vehicles_of_key_def)
  qed
  from m l k n show ?thesis by blast
qed

theorem merge_conservation_witness:
  "mset (concat (map auction_triples (merge_results example_results))) = mset (concat example_results) \<and>
   (\<Sum>a\<leftarrow>merge_results example_results. length (vehicles a)) = 3 \<and>
   merge_dict example_results \<noteq> [] \<and>
   auction_key (snd (hd (merge_dict example_results))) = fst (hd (merge_dict example_results)) \<and>
   vehicles (hd (merge_results example_results)) \<noteq> []"
proof -
  have d: "merge_dict example_results \<noteq> []"
    by (simp add: example_results_def merge_dict_def merge_file_def merge_triple_def)
  then have h: "hd (merge_dict example_results) \<in> set (merge_dict example_results)"
    by simp
  from d have "merge_results example_results \<noteq> []" by (simp add: merge_results_def)
  then have h': "hd (merge_results example_results) \<in> set (merge_results example_results)"
    by (rule hd_in_set)
  have l: "length (concat example_results) = 3" by (simp add: example_results_def)
  from merge_conservation[of example_results]
  have c: "mset (concat (map auction_triples (merge_results example_results))) = mset (concat example_results)"
    "(\<Sum>a\<leftarrow>merge_results example_results. length (vehicles a)) = length (concat example_results)"
    "\<forall>(k, a) \<in> set (merge_dict example_results). auction_key a = k"
    "\<forall>a \<in> set (merge_results example_results). vehicles a \<noteq> []"
    by blast+
  from c(3) h have "auction_key (snd (hd (merge_dict example_results))) = fst (hd (merge_dict example_results))"
    by (auto simp: split_beta)
  moreover from c(4) h' have "vehicles (hd (merge_results example_results)) \<noteq> []" by blast
  ultimately show ?thesis using c(1) c(2) d l by simp
qed

section \<open>Properties of Transmission\<close>

lemma py_lower_values:
  "py_lower ''Automatic'' = ''automatic''" "py_lower ''Manual'' = ''manual''"
  "py_lower ''Unknown'' = ''unknown''"
  by code_simp+

lemma from_str_loop_members:
  "from_str_loop transmission_members c =
     (if py_lower c = ''automatic'' then AUTOMATIC
      else if py_lower c = ''manual'' then MANUAL else UNKNOWN)"
  by (auto simp: transmission_members_def py_lower_values)

lemma py_lower_Nil_iff: "py_lower s = [] \<longleftrightarrow> s = []"
  by (simp add: py_lower_def)

lemma of_char_lt_256: "(of_char c :: nat) < 256"
  by (cases c) (simp)

lemma py_isspace_lower: "py_isspace (py_lower_char c) = py_isspace c"
  using of_char_lt_256[of c]
  by (auto simp: py_isspace_def py_lower_char_def Let_def)

lemma dropWhile_lower: "dropWhile py_isspace (py_lower s) = py_lower (dropWhile py_isspace s)"
  by (induction s) (auto simp: py_lower_def py_isspace_lower)

lemma py_strip_lower: "py_strip (py_lower s) = py_lower (py_strip s)"
proof -
  have r: "\<And>t. rev (py_lower t) = py_lower (rev t)" by (simp add: py_lower_def rev_map)
  show ?thesis by (simp add: py_strip_def dropWhile_lower r)
qed

lemma py_lower_char_idem: "py_lower_char (py_lower_char c) = py_lower_char c"
proof -
  have "(of_char c :: nat) < 256" by (rule of_char_lt_256)
  then show ?thesis by (auto simp: py_lower_char_def Let_def)
qed

lemma py_lower_idem: "py_lower (py_lower s) = py_lower s"
  by (simp add: py_lower_def py_lower_char_idem)

lemma from_str_Some:
  "from_str (Some s) =
     (if py_lower (py_strip s) = ''automatic'' then AUTOMATIC
      else if py_lower (py_strip s) = ''manual'' then MANUAL else UNKNOWN)"
proof (cases "s = [] \<or> py_strip s = []")
  case True
  then have "py_strip s = []" by (auto simp: py_strip_def)
  then show ?thesis by (simp add: from_str_def py_lower_def)
next
  case False
  then show ?thesis by (simp add: from_str_def from_str_loop_members)
qed

text \<open>
  C6. \<^verbatim>\<open>Transmission.from_str\<close> is a total function: it has a value for \<^verbatim>\<open>None\<close>, for the
  empty string and for every other string. The value is \<open>AUTOMATIC\<close> exactly when the
  trimmed, lowered input is \<open>automatic\<close>, \<open>MANUAL\<close> exactly when it is \<open>manual\<close>, and
  \<open>UNKNOWN\<close> in every other case; it depends on the input up to the case of its letters only.
\<close>

theorem from_str_total:
  "from_str None = UNKNOWN \<and> from_str (Some []) = UNKNOWN \<and>
   from_str (Some ''automatic'') = AUTOMATIC \<and>
   from_str (Some ''AUTOMATIC'') = AUTOMATIC \<and>
   from_str (Some ''Automatic'') = AUTOMATIC \<and>
   from_str (Some ''Foo'') = UNKNOWN \<and>
   (from_str (Some s) = AUTOMATIC \<longleftrightarrow> py_lower (py_strip s) = ''automatic'') \<and>
   (from_str (Some s) = MANUAL \<longleftrightarrow> py_lower (py_strip s) = ''manual'') \<and>
   (from_str (Some s) = UNKNOWN \<longleftrightarrow>
      py_lower (py_strip s) \<noteq> ''automatic'' \<and> py_lower (py_strip s) \<noteq> ''manual'') \<and>
   from_str (Some (py_lower s)) = from_str (Some s)"
proof -
  have 1: "from_str None = UNKNOWN" "from_str (Some []) = UNKNOWN" by (simp_all add: from_str_def)
  have 2: "from_str (Some ''automatic'') = AUTOMATIC" by code_simp
  have 3: "from_str (Some ''AUTOMATIC'') = AUTOMATIC" by code_simp
  have 4: "from_str (Some ''Automatic'') = AUTOMATIC" by code_simp
  have 5: "from_str (Some ''Foo'') = UNKNOWN" by code_simp
  have 6: "from_str (Some (py_lower s)) = from_str (Some s)"
    by (simp add: from_str_Some py_strip_lower py_lower_idem)
  show ?thesis using 1 2 3 4 5 6 by (simp add: from_str_Some)
qed

theorem from_str_total_witness:
  "from_str (Some ''  manuaL '') = MANUAL \<and> from_str (Some ''MANUAL'') = MANUAL"
proof -
  have "py_lower (py_strip ''  manuaL '') = ''manual''" by code_simp
  moreover have "py_lower (py_strip ''MANUAL'') = ''manual''" by code_simp
  ultimately show ?thesis
    using from_str_total[of "''  manuaL ''"] from_str_total[of "''MANUAL''"] by simp
qed


section \<open>Properties of the file processor\<close>

lemma ebind_simps:
  "ebind (Inl e) f = Inl e" "ebind (Inr x) f = f x"
  by (simp_all add: ebind_def)

lemma process_row_success:
  assumes "row ''Auction Date'' = Some (Some ds)" "parse_auction_date cy ds = Inr d"
    "row ''Branch Name'' = Some loc" "row ''Year'' = Some (Some ys)" "py_int ys = Inr y"
    "row ''Make'' = Some (Some mk)" "row ''Model'' = Some (Some md)"
    "row ''Vin#'' = Some (Some vn)" "row ''Engine'' = Some (Some en)"
  shows "process_row cy row =
     Inr (d, loc, \<lparr>year = y, make_name = mk, model = md, vin = vn,
            engine = \<lparr>description = en, cylinders = row_get row ''Cylinders'' (Some ''N/A'')\<rparr>,
            transmission = from_str (row_get row ''Transmission Type'' (Some []))\<rparr>)"
  using assms by (simp add: process_row_def row_item_def ebind_simps Engine_def Vehicle_def)

lemma process_row_Inr_iff:
  "process_row cy row = Inr t \<longleftrightarrow>
     (\<exists>ds d loc ys y mk md vn en.
        row ''Auction Date'' = Some (Some ds) \<and> parse_auction_date cy ds = Inr d \<and>
        row ''Branch Name'' = Some loc \<and> row ''Year'' = Some (Some ys) \<and> py_int ys = Inr y \<and>
        row ''Make'' = Some (Some mk) \<and> row ''Model'' = Some (Some md) \<and>
        row ''Vin#'' = Some (Some vn) \<and> row ''Engine'' = Some (Some en) \<and>
        t = (d, loc, \<lparr>year = y, make_name = mk, model = md, vin = vn,
            engine = \<lparr>description = en, cylinders = row_get row ''Cylinders'' (Some ''N/A'')\<rparr>,
            transmission = from_str (row_get row ''Transmission Type'' (Some []))\<rparr>))"
  (is "?L \<longleftrightarrow> ?R")
proof
  assume ?R then show ?L by (auto simp: process_row_success)
next
  assume ?L
  then show ?R
    by (auto simp: process_row_def row_item_def ebind_def Engine_def Vehicle_def
        split: option.splits sum.splits)
qed

lemma row_fails_iff: "row_fails cy row \<longleftrightarrow> isl (process_row cy row)"
proof (cases "process_row cy row")
  case (Inl e)
  have "row_fails cy row"
  proof (rule ccontr)
    assume n: "\<not> row_fails cy row"
    then have "\<forall>k \<in> set required_columns. row k \<noteq> None" by (simp add: row_fails_def)
    then obtain dv loc yv mv mdv vv ev where c:
      "row ''Auction Date'' = Some dv" "row ''Branch Name'' = Some loc" "row ''Year'' = Some yv"
      "row ''Make'' = Some mv" "row ''Model'' = Some mdv" "row ''Vin#'' = Some vv"
      "row ''Engine'' = Some ev"
      by (auto simp: required_columns_def)
    from n have "\<forall>k \<in> set string_columns. row k \<noteq> Some None" by (simp add: row_fails_def)
    with c obtain mk md vn en where s:
      "mv = Some mk" "mdv = Some md" "vv = Some vn" "ev = Some en"
      by (cases mv; cases mdv; cases vv; cases ev) (auto simp: string_columns_def)
    from n c obtain ds where ds: "dv = Some ds" by (cases dv) (auto simp: row_fails_def)
    from n c obtain ys where ys: "yv = Some ys" by (cases yv) (auto simp: row_fails_def)
    from n c ds obtain d where d: "parse_auction_date cy ds = Inr d"
      by (cases "parse_auction_date cy ds") (auto simp: row_fails_def)
    from n c ys obtain y where y: "py_int ys = Inr y"
      by (cases "py_int ys") (auto simp: row_fails_def)
    from process_row_success[of row ds cy d loc ys y mk md vn en] c s ds ys d y Inl
    show False by simp
  qed
  with Inl show ?thesis by simp
next
  case (Inr t)
  then have "\<not> row_fails cy row"
    by (auto simp: process_row_Inr_iff row_fails_def required_columns_def string_columns_def)
  with Inr show ?thesis by simp
qed

lemma process_rows_Inr_iff:
  "process_rows cy rows ending = Inr ts \<longleftrightarrow>
     ending = None \<and> length ts = length rows \<and>
     (\<forall>i < length rows. process_row cy (rows ! i) = Inr (ts ! i))"
proof (induction rows arbitrary: ts)
  case Nil
  show ?case by (cases ending) auto
next
  case (Cons r rows)
  show ?case
  proof (cases "process_row cy r")
    case (Inl e)
    then show ?thesis by (auto simp: ebind_simps)
  next
    case (Inr t)
    show ?thesis
    proof (cases "process_rows cy rows ending")
      case (Inl e)
      with Cons.IH Inr show ?thesis
        by (cases ts) (auto simp: ebind_simps nth_Cons split: nat.splits)
    next
      case r2: (Inr us)
      with Cons.IH[of us] have u: "ending = None" "length us = length rows"
        "\<forall>i < length rows. process_row cy (rows ! i) = Inr (us ! i)" by auto
      have "Inr (t # us) = (Inr ts :: error + triple list) \<longleftrightarrow>
            length ts = length (r # rows) \<and> (\<forall>i < length (r # rows). process_row cy ((r # rows) ! i) = Inr (ts ! i))"
      proof
        assume "Inr (t # us) = (Inr ts :: error + triple list)"
        then have "ts = t # us" by simp
        with u Inr show "length ts = length (r # rows) \<and> (\<forall>i < length (r # rows). process_row cy ((r # rows) ! i) = Inr (ts ! i))"
          by (auto simp: nth_Cons split: nat.splits)
      next
        assume a: "length ts = length (r # rows) \<and> (\<forall>i < length (r # rows). process_row cy ((r # rows) ! i) = Inr (ts ! i))"
        then obtain t' ts' where ts: "ts = t' # ts'" by (cases ts) auto
        from a ts Inr have "t' = t" by auto
        from a ts have "length ts' = length rows" by simp
        moreover from a ts have "\<forall>i < length rows. process_row cy (rows ! i) = Inr (ts' ! i)"
          by (metis Suc_less_eq length_Cons nth_Cons_Suc)
        ultimately have "ts' = us" using u by (auto intro: nth_equalityI)
        with ts \<open>t' = t\<close> show "Inr (t # us) = (Inr ts :: error + triple list)" by simp
      qed
      with Inr r2 u(1) show ?thesis by (simp add: ebind_simps)
    qed
  qed
qed

lemma process_rows_fails_iff:
  "isl (process_rows cy rows ending) \<longleftrightarrow> (\<exists>r \<in> set rows. isl (process_row cy r)) \<or> ending \<noteq> None"
proof (induction rows)
  case Nil show ?case by (cases ending) auto
next
  case (Cons r rows)
  then show ?case
    by (cases "process_row cy r"; cases "process_rows cy rows ending") (auto simp: ebind_simps)
qed

lemma file_fails_iff: "file_fails cy f \<longleftrightarrow> isl (process_file cy f)"
  by (cases f) (auto simp: file_fails_def process_file_def process_rows_fails_iff row_fails_iff)

section \<open>Properties of run_pipeline\<close>

lemma set_completion: "set (completion order tasks) = set tasks"
proof -
  have "set (filter (\<lambda>i. i < length tasks) (order @ [0 ..< length tasks])) = {..< length tasks}"
    by auto
  then have "set (completion order tasks) = (\<lambda>i. tasks ! i) ` {..< length tasks}"
    by (simp only: completion_def set_map)
  also have "\<dots> = set tasks" by (auto simp: set_conv_nth)
  finally show ?thesis .
qed

lemma first_error_None_iff: "first_error rs = None \<longleftrightarrow> (\<forall>r \<in> set rs. \<not> isl r)"
  by (induction rs rule: first_error.induct) auto

lemma first_error_Some: "first_error rs = Some e \<Longrightarrow> Inl e \<in> set rs"
  by (induction rs rule: first_error.induct) auto

lemma results_of_all_Inr: "\<forall>r \<in> set rs. \<not> isl r \<Longrightarrow> map Inr (results_of rs) = rs"
  by (induction rs rule: results_of.induct) auto

text \<open>
  C4. A row that fails makes the processing of its whole file fail. When a file of the
  directory fails (it cannot be opened, reading it ends with an error, or one of its rows has
  a missing column, a date that is absent or does not parse, a year that is absent or is not
  an integer, or no string where the vehicle needs one), \<^verbatim>\<open>run_pipeline\<close> raises: its
  result is an exception and no list of auctions. The exception is that of the first task to
  fail in the order in which the tasks finish, and it is the exception of a file that fails.
\<close>

theorem pipeline_fails_as_a_whole:
  "(r \<in> set rows \<and> row_fails cy r \<longrightarrow> isl (process_file cy (Reads rows ending))) \<and>
   (fs directory_name = Present path \<and> f \<in> set (glob_csv path) \<and> file_fails cy f \<longrightarrow>
      (\<exists>e. run_pipeline cy fs order directory_name = Inl e \<and>
           first_error (completion order (map (process_file cy) (glob_csv path))) = Some e \<and>
           (\<exists>g \<in> set (glob_csv path). file_fails cy g \<and> process_file cy g = Inl e)))"
proof (intro conjI impI)
  assume "r \<in> set rows \<and> row_fails cy r"
  then have "file_fails cy (Reads rows ending)" by (auto simp: file_fails_def)
  then show "isl (process_file cy (Reads rows ending))" by (simp add: file_fails_iff)
next
  assume a: "fs directory_name = Present path \<and> f \<in> set (glob_csv path) \<and> file_fails cy f"
  define tasks where "tasks = map (process_file cy) (glob_csv path)"
  from a have "isl (process_file cy f)" by (simp add: file_fails_iff)
  with a have "\<exists>r \<in> set (completion order tasks). isl r"
    by (auto simp: set_completion tasks_def)
  then obtain e where e: "first_error (completion order tasks) = Some e"
    using first_error_None_iff[of "completion order tasks"]
    by (cases "first_error (completion order tasks)") auto
  from first_error_Some[OF e] have "Inl e \<in> set tasks" by (simp add: set_completion)
  then obtain g where g: "g \<in> set (glob_csv path)" "process_file cy g = Inl e"
    by (auto simp: tasks_def)
  then have "file_fails cy g" by (simp add: file_fails_iff)
  moreover have "run_pipeline cy fs order directory_name = Inl e"
    using a e by (simp add: run_pipeline_def gather_def ebind_simps tasks_def Let_def)
  ultimately show "\<exists>e. run_pipeline cy fs order directory_name = Inl e \<and>
           first_error (completion order (map (process_file cy) (glob_csv path))) = Some e \<and>
           (\<exists>g \<in> set (glob_csv path). file_fails cy g \<and> process_file cy g = Inl e)"
    using e g by (auto simp: tasks_def)
qed

theorem pipeline_fails_as_a_whole_witness:
  "row_fails 2026 ((example_row ''Dallas'' ''VIN2'')(''Year'' \<mapsto> Some ''STARY'')) \<and>
   isl (process_file 2026 (Reads [example_row ''Dallas'' ''VIN1'',
                            (example_row ''Dallas'' ''VIN2'')(''Year'' \<mapsto> Some ''STARY'')] None)) \<and>
   run_pipeline 2026 example_fs [1, 0] ''broken'' = Inl ValueError \<and>
   process_row 2026 ((example_row ''Dallas'' ''VIN2'')(''Year'' \<mapsto> Some (CHR 0x1C # ''2020'')))
     = Inl ValueError \<and>
   process_row 2026 ((example_row ''Dallas'' ''VIN2'')(''Year'' \<mapsto> None)) = Inl TypeError \<and>
   process_row 2026 ((example_row ''Dallas'' ''VIN2'')(''Auction Date'' \<mapsto> None))
     = Inl AttributeError \<and>
   process_row 2026 ((example_row ''Dallas'' ''VIN2'')(''Make'' \<mapsto> None)) = Inl ValidationError"
proof -
  let ?bad = "(example_row ''Dallas'' ''VIN2'')(''Year'' \<mapsto> Some ''STARY'')"
  let ?rows = "[example_row ''Dallas'' ''VIN1'', ?bad]"
  have y: "py_int ''STARY'' = Inl ValueError" by code_simp
  have b: "row_fails 2026 ?bad"
    by (simp add: row_fails_def example_row_def y)
  have i: "isl (process_file 2026 (Reads ?rows None))"
    using pipeline_fails_as_a_whole[of ?bad ?rows 2026 None] b by simp
  have r: "run_pipeline 2026 example_fs [1, 0] ''broken'' = Inl ValueError" by code_simp
  have p1: "process_row 2026 ((example_row ''Dallas'' ''VIN2'')(''Year'' \<mapsto> Some (CHR 0x1C # ''2020'')))
     = Inl ValueError" by code_simp
  have p2: "process_row 2026 ((example_row ''Dallas'' ''VIN2'')(''Year'' \<mapsto> None)) = Inl TypeError"
    by code_simp
  have p3: "process_row 2026 ((example_row ''Dallas'' ''VIN2'')(''Auction Date'' \<mapsto> None))
     = Inl AttributeError" by code_simp
  have p4: "process_row 2026 ((example_row ''Dallas'' ''VIN2'')(''Make'' \<mapsto> None)) = Inl ValidationError"
    by code_simp
  from b i r p1 p2 p3 p4 show ?thesis by simp
qed

text \<open>
  C5, as the claim states it, does not hold: at a name of 256 characters nothing exists, and
  the existence test itself raises \<^verbatim>\<open>OSError\<close>, which \<^verbatim>\<open>run_pipeline\<close> lets through;
  the exception is not \<^verbatim>\<open>FileNotFoundError\<close>.
\<close>

theorem missing_directory_counterexample:
  "\<not> path_exists example_fs (replicate 256 CHR ''a'') \<and>
   run_pipeline 2026 example_fs [] (replicate 256 CHR ''a'') = Inl OSError \<and>
   run_pipeline 2026 example_fs [] (replicate 256 CHR ''a'') \<noteq> Inl FileNotFoundError"
proof -
  have n: "replicate 256 CHR ''a'' \<noteq> p" if "length p < 256" for p :: string
  proof
    assume "replicate 256 CHR ''a'' = p"
    then have "length (replicate 256 CHR ''a'') = length p" by simp
    with that show False by simp
  qed
  have s: "example_fs (replicate 256 CHR ''a'') = StatError OSError"
    by (simp add: example_fs_def n)
  then show ?thesis by (simp add: path_exists_def run_pipeline_def)
qed

text \<open>
  C5, amended. When the existence test finds nothing at the path of the directory,
  \<^verbatim>\<open>run_pipeline\<close> raises \<^verbatim>\<open>FileNotFoundError\<close>, whatever the year, the other paths of
  the file system and the order of the tasks: no file is looked at. When the test itself
  raises, \<^verbatim>\<open>run_pipeline\<close> raises that error. In both cases, that is whenever nothing
  exists at the path, the result is an exception and no list of auctions.
\<close>

theorem missing_directory:
  "(fs directory_name = Absent \<longrightarrow>
      run_pipeline cy fs order directory_name = Inl FileNotFoundError) \<and>
   (fs directory_name = StatError e \<longrightarrow> run_pipeline cy fs order directory_name = Inl e) \<and>
   (\<not> path_exists fs directory_name \<longrightarrow> isl (run_pipeline cy fs order directory_name))"
  by (cases "fs directory_name") (simp_all add: run_pipeline_def path_exists_def)

theorem missing_directory_witness:
  "example_fs ''no_such_directory'' = Absent \<and>
   \<not> path_exists example_fs ''no_such_directory'' \<and>
   run_pipeline 2026 example_fs [] ''no_such_directory'' = Inl FileNotFoundError"
proof -
  have h: "example_fs ''no_such_directory'' = Absent" by (simp add: example_fs_def)
  then have n: "\<not> path_exists example_fs ''no_such_directory''" by (simp add: path_exists_def)
  from missing_directory[of example_fs "''no_such_directory''" 2026 "[]"] h n
  show ?thesis by simp
qed

text \<open>
  C9. When \<^verbatim>\<open>process_file\<close> returns, its list has one triple for every row, the triple
  of the row at the same position; and it does return a list when the file does not fail. The
  triple of a row has the parsed date, the location as the row has it, and a vehicle whose
  fields are the columns of the row. When the header has no column Cylinders the cylinders
  are \<open>N/A\<close>, and when it has no column Transmission Type the transmission is
  \<^verbatim>\<open>from_str\<close> of the empty string, which is \<open>UNKNOWN\<close>; when the header has the column,
  the field of the row is taken, also where it is \<^verbatim>\<open>None\<close>.
\<close>

theorem process_file_one_triple_per_row:
  "(process_file cy (Reads rows ending) = Inr ts \<longrightarrow>
      length ts = length rows \<and>
      (\<forall>i < length rows. process_row cy (rows ! i) = Inr (ts ! i))) \<and>
   (\<not> file_fails cy (Reads rows ending) \<longrightarrow>
      (\<exists>ts. process_file cy (Reads rows ending) = Inr ts)) \<and>
   (process_row cy row = Inr (d, loc, v) \<longrightarrow>
      (\<exists>ds. row ''Auction Date'' = Some (Some ds) \<and> parse_auction_date cy ds = Inr d) \<and>
      row ''Branch Name'' = Some loc \<and>
      (\<exists>ys. row ''Year'' = Some (Some ys) \<and> py_int ys = Inr (year v)) \<and>
      row ''Make'' = Some (Some (make_name v)) \<and> row ''Model'' = Some (Some (model v)) \<and>
      row ''Vin#'' = Some (Some (vin v)) \<and>
      row ''Engine'' = Some (Some (description (engine v))) \<and>
      cylinders (engine v) = (case row ''Cylinders'' of None \<Rightarrow> Some ''N/A'' | Some c \<Rightarrow> c) \<and>
      transmission v =
        from_str (case row ''Transmission Type'' of None \<Rightarrow> Some [] | Some t \<Rightarrow> t) \<and>
      (row ''Cylinders'' = None \<longrightarrow> cylinders (engine v) = Some ''N/A'') \<and>
      (row ''Transmission Type'' = None \<longrightarrow>
         transmission v = from_str (Some []) \<and> transmission v = UNKNOWN))"
proof (intro conjI impI)
  assume "process_file cy (Reads rows ending) = Inr ts"
  then have "process_rows cy rows ending = Inr ts" by (simp add: process_file_def)
  then show "length ts = length rows" and "\<forall>i < length rows. process_row cy (rows ! i) = Inr (ts ! i)"
    by (simp_all add: process_rows_Inr_iff)
next
  assume "\<not> file_fails cy (Reads rows ending)"
  then have "\<not> isl (process_file cy (Reads rows ending))" by (simp add: file_fails_iff)
  then show "\<exists>ts. process_file cy (Reads rows ending) = Inr ts"
    by (cases "process_file cy (Reads rows ending)") auto
next
  assume a: "process_row cy row = Inr (d, loc, v)"
  then obtain ds d' loc' ys y mk md vn en where r:
    "row ''Auction Date'' = Some (Some ds)" "parse_auction_date cy ds = Inr d'"
    "row ''Branch Name'' = Some loc'" "row ''Year'' = Some (Some ys)" "py_int ys = Inr y"
    "row ''Make'' = Some (Some mk)" "row ''Model'' = Some (Some md)"
    "row ''Vin#'' = Some (Some vn)" "row ''Engine'' = Some (Some en)"
    "(d, loc, v) = (d', loc', \<lparr>year = y, make_name = mk, model = md, vin = vn,
            engine = \<lparr>description = en, cylinders = row_get row ''Cylinders'' (Some ''N/A'')\<rparr>,
            transmission = from_str (row_get row ''Transmission Type'' (Some []))\<rparr>)"
    unfolding process_row_Inr_iff by blast
  from r show "\<exists>ds. row ''Auction Date'' = Some (Some ds) \<and> parse_auction_date cy ds = Inr d"
    by simp
  from r show "row ''Branch Name'' = Some loc" by simp
  from r show "\<exists>ys. row ''Year'' = Some (Some ys) \<and> py_int ys = Inr (year v)" by simp
  from r show "row ''Make'' = Some (Some (make_name v))" by simp
  from r show "row ''Model'' = Some (Some (model v))" by simp
  from r show "row ''Vin#'' = Some (Some (vin v))" by simp
  from r show "row ''Engine'' = Some (Some (description (engine v)))" by simp
  from r show c: "cylinders (engine v) = (case row ''Cylinders'' of None \<Rightarrow> Some ''N/A'' | Some c \<Rightarrow> c)"
    by (simp add: row_get_def)
  from r show t: "transmission v =
        from_str (case row ''Transmission Type'' of None \<Rightarrow> Some [] | Some t \<Rightarrow> t)"
    by (simp add: row_get_def)
  { assume "row ''Cylinders'' = None"
    with c show "cylinders (engine v) = Some ''N/A''" by simp }
  { assume n: "row ''Transmission Type'' = None"
    with t show "transmission v = from_str (Some [])" by simp
    with n t show "transmission v = UNKNOWN" by (simp add: from_str_def) }
qed

theorem process_file_one_triple_per_row_witness:
  "process_file 2026 (Reads [example_row ''Dallas'' ''VIN1'', example_short_row] None) =
     Inr [(example_date, Some ''Dallas'', (example_vehicle ''VIN1'')
             \<lparr>engine := \<lparr>description = ''V6'', cylinders = Some ''N/A''\<rparr>, transmission := UNKNOWN\<rparr>),
          (example_date, Some ''Dallas'', (example_vehicle ''VIN4'')
             \<lparr>engine := \<lparr>description = ''V6'', cylinders = None\<rparr>, transmission := UNKNOWN\<rparr>)] \<and>
   example_row ''Dallas'' ''VIN1'' ''Cylinders'' = None \<and>
   example_row ''Dallas'' ''VIN1'' ''Transmission Type'' = None \<and>
   example_short_row ''Cylinders'' = Some None"
proof -
  let ?r1 = "example_row ''Dallas'' ''VIN1''" and ?r2 = "example_short_row"
  let ?v1 = "(example_vehicle ''VIN1'')
             \<lparr>engine := \<lparr>description = ''V6'', cylinders = Some ''N/A''\<rparr>, transmission := UNKNOWN\<rparr>"
  let ?v2 = "(example_vehicle ''VIN4'')
             \<lparr>engine := \<lparr>description = ''V6'', cylinders = None\<rparr>, transmission := UNKNOWN\<rparr>"
  have p1: "process_row 2026 ?r1 = Inr (example_date, Some ''Dallas'', ?v1)" by code_simp
  have p2: "process_row 2026 ?r2 = Inr (example_date, Some ''Dallas'', ?v2)" by code_simp
  have n: "\<not> file_fails 2026 (Reads [?r1, ?r2] None)"
    using p1 p2 by (simp add: file_fails_def row_fails_iff)
  have c: "?r1 ''Cylinders'' = None" "?r1 ''Transmission Type'' = None"
    "?r2 ''Cylinders'' = Some None"
    by (simp_all add: example_row_def example_short_row_def)
  from process_file_one_triple_per_row[of 2026 "[?r1, ?r2]" None _ ?r1 example_date "Some ''Dallas''" ?v1] n
  obtain ts where ts: "process_file 2026 (Reads [?r1, ?r2] None) = Inr ts" by blast
  with process_file_one_triple_per_row[of 2026 "[?r1, ?r2]" None ts ?r1 example_date "Some ''Dallas''" ?v1]
  have l: "length ts = 2" and e: "\<forall>i < 2. process_row 2026 ([?r1, ?r2] ! i) = Inr (ts ! i)"
    by simp_all
  from e have "ts ! 0 = (example_date, Some ''Dallas'', ?v1)" "ts ! 1 = (example_date, Some ''Dallas'', ?v2)"
    using p1 p2 by (auto simp: less_Suc_eq numeral_2_eq_2)
  with l have "ts = [(example_date, Some ''Dallas'', ?v1), (example_date, Some ''Dallas'', ?v2)]"
    by (auto simp: list_eq_iff_nth_eq less_Suc_eq numeral_2_eq_2)
  with ts c show ?thesis by simp
qed

section \<open>Properties of the date parser\<close>

subsection \<open>The regular expression of strptime and the layout\<close>







































lemma in_bind:
  "x \<in> set (List.bind (m s) f) \<longleftrightarrow> (\<exists>a r. (a, r) \<in> set (m s) \<and> x \<in> set (f (a, r)))"
  by (auto simp: set_list_bind)





















subsection \<open>The year in front\<close>











subsection \<open>The calendar\<close>

















subsection \<open>Failure and success of parse_auction_date\<close>






end
